theory Spec2Isabelle
  imports Main
begin

section \<open>Overlap detector\<close>

text \<open>
  A pygame rectangle: integer position of the top-left corner and a size. \<open>rect_x\<close>
  and \<open>rect_y\<close> are the fields the source reads as \<open>rect.x\<close> and \<open>rect.y\<close>
  (the names \<open>x\<close> and \<open>y\<close> are kept free for variables). A size is never
  negative, so it is a natural number.
\<close>

record Rect =
  rect_x :: int
  rect_y :: int
  rect_w :: nat
  rect_h :: nat

definition right :: "Rect \<Rightarrow> int" where
  "right r = rect_x r + int (rect_w r)"

definition bottom :: "Rect \<Rightarrow> int" where
  "bottom r = rect_y r + int (rect_h r)"

definition centerx :: "Rect \<Rightarrow> int" where
  "centerx r = rect_x r + int (rect_w r div 2)"

definition area :: "Rect \<Rightarrow> nat" where
  "area r = rect_w r * rect_h r"

text \<open>
  Modelled from the spec: the overlap test (\<open>utils.overlap\<close> of Lesson-01, the
  spec's Overlap Detector) is not among the source files. The spec describes it as the
  axis-aligned bounding-box intersection that is true iff the x-ranges and the y-ranges
  both overlap with non-zero measure, touching edges not counting. \<open>overlaps\<close> is the
  usual computation of that test: the larger of the two left edges lies strictly before
  the smaller of the two right edges, and the same vertically.
\<close>

definition overlaps :: "Rect \<Rightarrow> Rect \<Rightarrow> bool" where
  "overlaps a b \<longleftrightarrow>
     max (rect_x a) (rect_x b) < min (right a) (right b) \<and>
     max (rect_y a) (rect_y b) < min (bottom a) (bottom b)"

text \<open>
  The spec's words, for comparison with \<open>overlaps\<close>: the x-range and the y-range of a
  rectangle as sets of pixel coordinates, and the measure of a common range as the number
  of coordinates in it.
\<close>

definition x_range :: "Rect \<Rightarrow> int set" where
  "x_range r = {rect_x r ..< right r}"

definition y_range :: "Rect \<Rightarrow> int set" where
  "y_range r = {rect_y r ..< bottom r}"

definition ranges_overlap_spec :: "Rect \<Rightarrow> Rect \<Rightarrow> bool" where
  "ranges_overlap_spec a b \<longleftrightarrow>
     0 < card (x_range a \<inter> x_range b) \<and> 0 < card (y_range a \<inter> y_range b)"

section \<open>Lesson-01, Crazy-Robot: the game loop of cot_moc_4.py\<close>

text \<open>
  A pygame surface enters the loop only through \<open>overlap\<close>, which needs its size.
\<close>

record surface =
  img_w :: nat
  img_h :: nat

text \<open>
  Modelled from the spec: the classes \<open>Player\<close>, \<open>Robot\<close>, \<open>GameItem\<close>,
  \<open>NPC\<close> and \<open>GameState\<close> (module \<open>entities\<close>) are not among the source files.
  The loop reads the fields \<open>x\<close>, \<open>y\<close> and \<open>image\<close> of every entity and
  \<open>hidden\<close> of an item (\<open>pos_x\<close>, \<open>pos_y\<close>, \<open>img\<close> here: \<open>image\<close> is a
  constant of HOL), and \<open>score\<close> and \<open>state\<close> of the game state; the constructor
  calls give a robot a velocity and an item a type.
\<close>

record sprite =
  pos_x :: int
  pos_y :: int
  img :: surface

record robot = sprite +
  dx :: int
  dy :: int

datatype ItemType = DIAMOND_BLUE | DIAMOND_RED

record game_item = sprite +
  item_type :: ItemType
  hidden :: bool

datatype GameStateType = RUNNING | WON | LOST

record GameState =
  score :: int
  state :: GameStateType

text \<open>
  Modelled from the spec: \<open>GameItem.set_hidden\<close>, \<open>GameState.update_score\<close> and
  \<open>GameState.update_state\<close> are not among the source files. The spec's data model
  gives an item a hidden flag and the game state a score and a state value; the three
  methods are the writes to these fields that their call sites in the loop name. What
  the state is after the collision checks of a tick is stated further below for every
  \<open>update_state\<close>, not for this one.
\<close>

definition set_hidden :: "game_item \<Rightarrow> game_item" where
  "set_hidden item = item\<lparr>hidden := True\<rparr>"

definition update_score :: "int \<Rightarrow> GameState \<Rightarrow> GameState" where
  "update_score new_score gs = gs\<lparr>score := new_score\<rparr>"

definition update_state :: "GameStateType \<Rightarrow> GameState \<Rightarrow> GameState" where
  "update_state new_state gs = gs\<lparr>state := new_state\<rparr>"

text \<open>
  \<open>overlap(x1, y1, image1, x2, y2, image2)\<close>: the overlap test on the bounds of the
  two images placed at the two positions.
\<close>

definition bounds :: "int \<Rightarrow> int \<Rightarrow> surface \<Rightarrow> Rect" where
  "bounds px py im = \<lparr>rect_x = px, rect_y = py, rect_w = img_w im, rect_h = img_h im\<rparr>"

definition overlap :: "int \<Rightarrow> int \<Rightarrow> surface \<Rightarrow> int \<Rightarrow> int \<Rightarrow> surface \<Rightarrow> bool" where
  "overlap x1 y1 im1 x2 y2 im2 = overlaps (bounds x1 y1 im1) (bounds x2 y2 im2)"

text \<open>
  The module-level variables of cot_moc_4.py, with the two effects of the loop that
  leave the program: the lines printed, and the frames shown (one
  \<open>pygame.display.flip()\<close> per completed iteration).
\<close>

record game =
  player :: sprite
  list_robot :: "robot list"
  list_item :: "game_item list"
  to_mo :: sprite
  game_state :: GameState
  running :: bool
  printed :: "string list"
  frames :: nat

text \<open>
  What the environment supplies to one iteration: whether \<open>pygame.event.peek(QUIT)\<close>
  is true at its top, and whatever \<open>Player.update\<close> and \<open>Robot.update\<close> read
  (keyboard, clock). The two update methods are not among the source files, so every
  function of the loop takes them as the parameters \<open>pu\<close> and \<open>ru\<close>.
\<close>

record 'e iteration =
  quit :: bool
  env :: 'e

text \<open>Lines 51-57: one item of the pickup loop, then the loop.\<close>

definition pickup_item :: "sprite \<Rightarrow> game_item \<Rightarrow> GameState \<Rightarrow> game_item \<times> GameState" where
  "pickup_item p item gs =
     (if \<not> hidden item then
        if overlap (pos_x p) (pos_y p) (img p) (pos_x item) (pos_y item) (img item) then
          (set_hidden item, update_score (score gs + 1) gs)
        else (item, gs)
      else (item, gs))"

fun pickup_items :: "sprite \<Rightarrow> game_item list \<Rightarrow> GameState \<Rightarrow> game_item list \<times> GameState" where
  "pickup_items p [] gs = ([], gs)"
| "pickup_items p (item # rest) gs =
     (case pickup_item p item gs of
        (item', gs') \<Rightarrow>
          (case pickup_items p rest gs' of (rest', gs'') \<Rightarrow> (item' # rest', gs'')))"

text \<open>Lines 59-62: the hazard loop. It has no \<open>break\<close>: every robot is checked.\<close>

fun robot_checks :: "robot list \<Rightarrow> game \<Rightarrow> game" where
  "robot_checks [] g = g"
| "robot_checks (r # rs) g =
     robot_checks rs
       (if overlap (pos_x (player g)) (pos_y (player g)) (img (player g)) (pos_x r) (pos_y r) (img r)
        then g\<lparr>printed := printed g @ [''YOU LOST!!''],
               game_state := update_state LOST (game_state g)\<rparr>
        else g)"

text \<open>Lines 64-66: the goal check, an \<open>if\<close> of its own after the hazard loop.\<close>

definition goal_check :: "game \<Rightarrow> game" where
  "goal_check g =
     (if overlap (pos_x (player g)) (pos_y (player g)) (img (player g))
                 (pos_x (to_mo g)) (pos_y (to_mo g)) (img (to_mo g))
      then g\<lparr>printed := printed g @ [''YOU WON!!''],
             game_state := update_state WON (game_state g)\<rparr>
      else g)"

text \<open>Lines 45-66: the update phase, guarded by the state.\<close>

definition update_phase :: "('e \<Rightarrow> sprite \<Rightarrow> sprite) \<Rightarrow> ('e \<Rightarrow> robot \<Rightarrow> robot) \<Rightarrow> 'e \<Rightarrow> game \<Rightarrow> game" where
  "update_phase pu ru e g =
     (if state (game_state g) = RUNNING then
        let g1 = g\<lparr>player := pu e (player g)\<rparr>;
            g2 = g1\<lparr>list_robot := map (ru e) (list_robot g1)\<rparr>;
            g3 = (case pickup_items (player g2) (list_item g2) (game_state g2) of
                    (items, gs) \<Rightarrow> g2\<lparr>list_item := items, game_state := gs\<rparr>);
            g4 = robot_checks (list_robot g3) g3
        in goal_check g4
      else g)"

text \<open>
  Lines 68-86: the render phase draws and shows a frame. The renderer returns nothing
  to the loop; what remains of it is that one more frame was shown.
\<close>

definition render_phase :: "game \<Rightarrow> game" where
  "render_phase g = g\<lparr>frames := frames g + 1\<rparr>"

definition tick :: "('e \<Rightarrow> sprite \<Rightarrow> sprite) \<Rightarrow> ('e \<Rightarrow> robot \<Rightarrow> robot) \<Rightarrow> 'e \<Rightarrow> game \<Rightarrow> game" where
  "tick pu ru e g = render_phase (update_phase pu ru e g)"

text \<open>
  Lines 38-86: the loop, run on the iterations the environment supplies. The code has
  no exit but the quit signal, so the loop is followed along a finite list of
  iterations: the result has \<open>running\<close> false when the loop has exited, and is the
  state reached so far when the list ends first.
\<close>

fun game_loop :: "('e \<Rightarrow> sprite \<Rightarrow> sprite) \<Rightarrow> ('e \<Rightarrow> robot \<Rightarrow> robot) \<Rightarrow> game \<Rightarrow> 'e iteration list \<Rightarrow> game" where
  "game_loop pu ru g [] = g"
| "game_loop pu ru g (i # rest) =
     (if \<not> running g then g
      else if quit i then g\<lparr>running := False\<rparr>
      else game_loop pu ru (tick pu ru (env i) g) rest)"

text \<open>
  The source of \<open>GameState.update_state\<close> is not available, and what the state is after
  two calls of it in one tick depends on it alone. The collision checks (lines 59-66)
  and the tick around them (lines 45-86) are therefore given a second time, line by line
  as above, with the method as the parameter \<open>us\<close>; \<open>tick\<close> is \<open>tick_by\<close> at
  \<open>update_state\<close>.
\<close>

fun robot_checks_by :: "(GameStateType \<Rightarrow> GameState \<Rightarrow> GameState) \<Rightarrow> robot list \<Rightarrow> game \<Rightarrow> game" where
  "robot_checks_by us [] g = g"
| "robot_checks_by us (r # rs) g =
     robot_checks_by us rs
       (if overlap (pos_x (player g)) (pos_y (player g)) (img (player g)) (pos_x r) (pos_y r) (img r)
        then g\<lparr>printed := printed g @ [''YOU LOST!!''],
               game_state := us LOST (game_state g)\<rparr>
        else g)"

definition goal_check_by :: "(GameStateType \<Rightarrow> GameState \<Rightarrow> GameState) \<Rightarrow> game \<Rightarrow> game" where
  "goal_check_by us g =
     (if overlap (pos_x (player g)) (pos_y (player g)) (img (player g))
                 (pos_x (to_mo g)) (pos_y (to_mo g)) (img (to_mo g))
      then g\<lparr>printed := printed g @ [''YOU WON!!''],
             game_state := us WON (game_state g)\<rparr>
      else g)"

definition update_phase_by ::
  "(GameStateType \<Rightarrow> GameState \<Rightarrow> GameState) \<Rightarrow> ('e \<Rightarrow> sprite \<Rightarrow> sprite) \<Rightarrow> ('e \<Rightarrow> robot \<Rightarrow> robot) \<Rightarrow> 'e \<Rightarrow> game \<Rightarrow> game" where
  "update_phase_by us pu ru e g =
     (if state (game_state g) = RUNNING then
        let g1 = g\<lparr>player := pu e (player g)\<rparr>;
            g2 = g1\<lparr>list_robot := map (ru e) (list_robot g1)\<rparr>;
            g3 = (case pickup_items (player g2) (list_item g2) (game_state g2) of
                    (items, gs) \<Rightarrow> g2\<lparr>list_item := items, game_state := gs\<rparr>);
            g4 = robot_checks_by us (list_robot g3) g3
        in goal_check_by us g4
      else g)"

definition tick_by ::
  "(GameStateType \<Rightarrow> GameState \<Rightarrow> GameState) \<Rightarrow> ('e \<Rightarrow> sprite \<Rightarrow> sprite) \<Rightarrow> ('e \<Rightarrow> robot \<Rightarrow> robot) \<Rightarrow> 'e \<Rightarrow> game \<Rightarrow> game" where
  "tick_by us pu ru e g = render_phase (update_phase_by us pu ru e g)"

text \<open>
  One method that \<open>us\<close> may be, beside the plain write: a write that keeps to the
  state machine of the spec's data model, in which \<open>WON\<close> and \<open>LOST\<close> are
  absorbing.
\<close>

definition update_state_absorbing :: "GameStateType \<Rightarrow> GameState \<Rightarrow> GameState" where
  "update_state_absorbing new_state gs =
     (if state gs = RUNNING then gs\<lparr>state := new_state\<rparr> else gs)"

text \<open>
  The three overlap tests of the loop, named: the player picks an item (lines 52-53),
  hits a robot (line 60), reaches the goal (line 64).
\<close>

definition picks :: "sprite \<Rightarrow> game_item \<Rightarrow> bool" where
  "picks p item \<longleftrightarrow>
     \<not> hidden item \<and> overlap (pos_x p) (pos_y p) (img p) (pos_x item) (pos_y item) (img item)"

definition hits :: "sprite \<Rightarrow> robot \<Rightarrow> bool" where
  "hits p r \<longleftrightarrow> overlap (pos_x p) (pos_y p) (img p) (pos_x r) (pos_y r) (img r)"

definition reaches :: "sprite \<Rightarrow> sprite \<Rightarrow> bool" where
  "reaches p n \<longleftrightarrow> overlap (pos_x p) (pos_y p) (img p) (pos_x n) (pos_y n) (img n)"

text \<open>
  Entities with 10 by 10 bounds and the state in which the loop starts (lines 35-37:
  score 0, state \<open>RUNNING\<close>, \<open>running\<close> true), for concrete scenarios.
\<close>

definition box :: "int \<Rightarrow> int \<Rightarrow> sprite" where
  "box px py = \<lparr>pos_x = px, pos_y = py, img = \<lparr>img_w = 10, img_h = 10\<rparr>\<rparr>"

definition robot_box :: "int \<Rightarrow> int \<Rightarrow> int \<Rightarrow> int \<Rightarrow> robot" where
  "robot_box px py vx vy =
     \<lparr>pos_x = px, pos_y = py, img = \<lparr>img_w = 10, img_h = 10\<rparr>, dx = vx, dy = vy\<rparr>"

definition item_box :: "int \<Rightarrow> int \<Rightarrow> ItemType \<Rightarrow> game_item" where
  "item_box px py t =
     \<lparr>pos_x = px, pos_y = py, img = \<lparr>img_w = 10, img_h = 10\<rparr>, item_type = t, hidden = False\<rparr>"

definition new_game :: "sprite \<Rightarrow> robot list \<Rightarrow> game_item list \<Rightarrow> sprite \<Rightarrow> game" where
  "new_game p robots items goal =
     \<lparr>player = p, list_robot = robots, list_item = items, to_mo = goal,
      game_state = \<lparr>score = 0, state = RUNNING\<rparr>, running = True, printed = [], frames = 0\<rparr>"

section \<open>Events\<close>

text \<open>
  Modelled from the spec: \<open>EventType\<close> and \<open>GameEvent\<close> (module \<open>common.event\<close>)
  are not among the source files. The spec's GameEvent has a type, an optional listener
  identifier (absent: a broadcast) and an optional payload; the payload the source reads
  is the key of a keyboard event. The event types are those the source names, and the
  two keyboard types behind \<open>is_key_down\<close> and \<open>is_key_up\<close>.
\<close>

datatype EventType = PLAYER_NEAR_NPC | PLAYER_ACTIVATE_NPC | NPC_DIALOGUE_END | KEYDOWN | KEYUP

datatype key = K_LEFT | K_RIGHT | K_UP | K_SPACE | K_a | K_d | K_w | K_e | K_other nat

record GameEvent =
  event_type :: EventType
  listener_id :: "int option"
  event_key :: "key option"

definition get_listener_id :: "GameEvent \<Rightarrow> int option" where
  "get_listener_id event = listener_id event"

definition is_type :: "GameEvent \<Rightarrow> EventType \<Rightarrow> bool" where
  "is_type event t \<longleftrightarrow> event_type event = t"

definition is_key_down :: "GameEvent \<Rightarrow> key list \<Rightarrow> bool" where
  "is_key_down event keys \<longleftrightarrow>
     event_type event = KEYDOWN \<and>
     (case event_key event of None \<Rightarrow> False | Some k \<Rightarrow> k \<in> set keys)"

definition is_key_up :: "GameEvent \<Rightarrow> key list \<Rightarrow> bool" where
  "is_key_up event keys \<longleftrightarrow>
     event_type event = KEYUP \<and>
     (case event_key event of None \<Rightarrow> False | Some k \<Rightarrow> k \<in> set keys)"

section \<open>World\<close>

text \<open>
  Modelled from the spec: \<open>BaseEntity\<close>, \<open>EntityType\<close> and \<open>World\<close> are not among
  the source files. An entity has an identifier, a kind and a rectangle, and keeps the
  events handed to its \<open>update\<close> (the subclasses read \<open>self.id\<close>, \<open>self.rect\<close>
  and \<open>self.events\<close>; \<open>entity_id\<close> here, \<open>id\<close> being a constant of HOL). The kinds
  are those of the spec's data model, under the names the source uses where it names
  them.
\<close>

datatype EntityType =
  PLAYER | ROBOT | COLLECTABLE_ITEM | FRIENDLY_NPC | QUESTION_MARK | PLAYER_INVENTORY

record entity =
  entity_id :: int
  entity_type :: EntityType
  rect :: Rect
  events :: "GameEvent list"

datatype error = LookupFailure | InvalidSpawnRequest

text \<open>
  Modelled from the spec: the World owns the collection that maps an identifier to its
  live entity, in registration order (an association list), and hands out fresh
  identifiers (a counter). \<open>add_entity\<close> registers a new entity of the kind and returns
  its identifier; the kind's size comes from the configuration, the parameter
  \<open>size_of\<close>, and the entity starts at the origin until its creator places it.
  \<open>get_entity\<close> returns the live entity or signals "not found". \<open>remove_entity\<close>
  deregisters the entity; on an identifier that is not live it is a no-op, not an
  error. \<open>put_entity\<close> is the write through the reference that \<open>get_entity\<close>
  returned.
\<close>

record World =
  entities :: "(int \<times> entity) list"
  next_id :: int

definition add_entity :: "(EntityType \<Rightarrow> nat \<times> nat) \<Rightarrow> EntityType \<Rightarrow> World \<Rightarrow> int \<times> World" where
  "add_entity size_of kind w =
     (let new_id = next_id w;
          new_entity = \<lparr>entity_id = new_id, entity_type = kind,
                        rect = \<lparr>rect_x = 0, rect_y = 0,
                                rect_w = fst (size_of kind), rect_h = snd (size_of kind)\<rparr>,
                        events = []\<rparr>
      in (new_id, w\<lparr>entities := entities w @ [(new_id, new_entity)], next_id := new_id + 1\<rparr>))"

definition get_entity :: "int \<Rightarrow> World \<Rightarrow> error + entity" where
  "get_entity i w = (case map_of (entities w) i of None \<Rightarrow> Inl LookupFailure | Some e \<Rightarrow> Inr e)"

definition remove_entity :: "int \<Rightarrow> World \<Rightarrow> error + World" where
  "remove_entity i w = Inr (w\<lparr>entities := filter (\<lambda>(j, e). j \<noteq> i) (entities w)\<rparr>)"

definition put_entity :: "int \<Rightarrow> entity \<Rightarrow> World \<Rightarrow> World" where
  "put_entity i e w = w\<lparr>entities := map (\<lambda>(j, old). if j = i then (j, e) else (j, old)) (entities w)\<rparr>"

section \<open>Lesson-07, Checkpoint-2: FriendlyNpc\<close>

record FriendlyNpc = entity +
  is_near_player :: bool
  question_mark_id :: "int option"

text \<open>
  Modelled from the spec: \<open>BaseEntity.update(events, world)\<close>, called first by the
  subclass (line 33), is not among the source files. By the spec every entity's
  \<open>update\<close> receives the events delivered in the tick; \<open>_handle_events\<close> reads them
  as \<open>self.events\<close> right after the call, so the base method stores the events it is
  given. The world is passed along explicitly.
\<close>

definition base_update :: "'a entity_scheme \<Rightarrow> GameEvent list \<Rightarrow> 'a entity_scheme" where
  "base_update self evs = self\<lparr>events := evs\<rparr>"

text \<open>Lines 42-47: the loop over the events, then \<open>_handle_events\<close> (lines 40-47).\<close>

fun npc_events_loop :: "GameEvent list \<Rightarrow> FriendlyNpc \<Rightarrow> FriendlyNpc" where
  "npc_events_loop [] self = self"
| "npc_events_loop (event # rest) self =
     (if \<not> (get_listener_id event = Some (entity_id self)) then npc_events_loop rest self
      else if is_type event PLAYER_NEAR_NPC then npc_events_loop rest (self\<lparr>is_near_player := True\<rparr>)
      else npc_events_loop rest self)"

definition npc_handle_events :: "FriendlyNpc \<Rightarrow> FriendlyNpc" where
  "npc_handle_events self = npc_events_loop (events self) (self\<lparr>is_near_player := False\<rparr>)"

text \<open>
  Python's truth value of an \<open>Optional[int]\<close>: \<open>None\<close> and \<open>0\<close> are false.
\<close>

definition truthy :: "int option \<Rightarrow> bool" where
  "truthy v \<longleftrightarrow> (case v of None \<Rightarrow> False | Some i \<Rightarrow> i \<noteq> 0)"

text \<open>
  Lines 49-54: \<open>_highlight\<close>. Assigning \<open>rect.centerx\<close> moves a pygame rectangle
  horizontally so that its centre is the given one.
\<close>

definition set_centerx :: "int \<Rightarrow> Rect \<Rightarrow> Rect" where
  "set_centerx c r = r\<lparr>rect_x := c - int (rect_w r div 2)\<rparr>"

definition highlight ::
  "(EntityType \<Rightarrow> nat \<times> nat) \<Rightarrow> FriendlyNpc \<Rightarrow> World \<Rightarrow> error + FriendlyNpc \<times> World" where
  "highlight size_of self w =
     (if \<not> truthy (question_mark_id self) then
        case add_entity size_of QUESTION_MARK w of
          (qid, w1) \<Rightarrow>
            (case get_entity qid w1 of
               Inl err \<Rightarrow> Inl err
             | Inr new_entity \<Rightarrow>
                 let e1 = new_entity\<lparr>rect := set_centerx (centerx (rect self)) (rect new_entity)\<rparr>;
                     e2 = e1\<lparr>rect := (rect e1)\<lparr>rect_y := rect_y (rect self) - 80\<rparr>\<rparr>
                 in Inr (self\<lparr>question_mark_id := Some qid\<rparr>, put_entity qid e2 w1))
      else Inr (self, w))"

text \<open>Lines 56-59: \<open>_unhightlight\<close>.\<close>

definition unhightlight :: "FriendlyNpc \<Rightarrow> World \<Rightarrow> error + FriendlyNpc \<times> World" where
  "unhightlight self w =
     (case question_mark_id self of
        None \<Rightarrow> Inr (self, w)
      | Some qid \<Rightarrow>
          if truthy (Some qid) then
            case remove_entity qid w of
              Inl err \<Rightarrow> Inl err
            | Inr w1 \<Rightarrow> Inr (self\<lparr>question_mark_id := None\<rparr>, w1)
          else Inr (self, w))"

text \<open>Lines 32-38: \<open>FriendlyNpc.update\<close>.\<close>

definition npc_update ::
  "(EntityType \<Rightarrow> nat \<times> nat) \<Rightarrow> FriendlyNpc \<Rightarrow> GameEvent list \<Rightarrow> World \<Rightarrow> error + FriendlyNpc \<times> World" where
  "npc_update size_of self evs w =
     (let self1 = base_update self evs;
          self2 = npc_handle_events self1
      in if is_near_player self2 then highlight size_of self2 w else unhightlight self2 w)"

text \<open>
  The NPC over several ticks: \<open>update\<close> is called once per tick with the events
  delivered in that tick, and an error ends the run.
\<close>

fun npc_ticks ::
  "(EntityType \<Rightarrow> nat \<times> nat) \<Rightarrow> FriendlyNpc \<Rightarrow> World \<Rightarrow> GameEvent list list \<Rightarrow> error + FriendlyNpc \<times> World" where
  "npc_ticks size_of self w [] = Inr (self, w)"
| "npc_ticks size_of self w (evs # later) =
     (case npc_update size_of self evs w of
        Inl err \<Rightarrow> Inl err
      | Inr (self', w') \<Rightarrow> npc_ticks size_of self' w' later)"

text \<open>
  What a run leaves behind apart from the stored copy of the last tick's events, which
  the next \<open>update\<close> overwrites.
\<close>

definition outcome :: "error + FriendlyNpc \<times> World \<Rightarrow> error + FriendlyNpc \<times> World" where
  "outcome res = (case res of Inl err \<Rightarrow> Inl err | Inr (self, w) \<Rightarrow> Inr (self\<lparr>events := []\<rparr>, w))"

definition addressed_to :: "int \<Rightarrow> GameEvent \<Rightarrow> bool" where
  "addressed_to l event \<longleftrightarrow> get_listener_id event = Some l"

section \<open>Lesson-09, Checkpoint-3: the event handling of Player\<close>

text \<open>
  Modelled from the spec: \<open>AnimatedEntity\<close>, the superclass of \<open>Player\<close>, is not
  among the source files. The spec gives an entity a velocity and leaves its motion to
  the kind; the calls of the methods \<open>move_left\<close>, \<open>move_right\<close> and \<open>jump\<close> are
  recorded, in order, as the commands given to the player. Of the fields of \<open>Player\<close>
  the record has those that \<open>_handle_events\<close> and \<open>_handle_activation\<close> use; the NPC
  nearby is kept as its identifier and the answer of its \<open>has_dialogue()\<close>.
\<close>

datatype command = MoveLeft bool | MoveRight bool | Jump

record Player = entity +
  npc_near_by :: "(int \<times> bool) option"
  talking :: bool
  commands :: "command list"

definition move_left :: "bool \<Rightarrow> Player \<Rightarrow> Player" where
  "move_left enabled self = self\<lparr>commands := commands self @ [MoveLeft enabled]\<rparr>"

definition move_right :: "bool \<Rightarrow> Player \<Rightarrow> Player" where
  "move_right enabled self = self\<lparr>commands := commands self @ [MoveRight enabled]\<rparr>"

definition jump :: "Player \<Rightarrow> Player" where
  "jump self = self\<lparr>commands := commands self @ [Jump]\<rparr>"

text \<open>
  Lines 76-82: \<open>_handle_activation\<close>. \<open>GameEvent(...).post()\<close> appends the event to
  the queue of the event bus, which is passed along with the player.
\<close>

definition handle_activation :: "Player \<times> GameEvent list \<Rightarrow> Player \<times> GameEvent list" where
  "handle_activation sq =
     (case sq of
        (self, queue) \<Rightarrow>
          (case npc_near_by self of
             None \<Rightarrow> (self, queue)
           | Some (nid, has_dialogue) \<Rightarrow>
               if \<not> has_dialogue then (self, queue)
               else (self\<lparr>talking := True\<rparr>,
                     queue @ [\<lparr>event_type = PLAYER_ACTIVATE_NPC, listener_id = Some nid,
                               event_key = None\<rparr>])))"

text \<open>Lines 56-74: the body of the loop of \<open>_handle_events\<close>, then the loop.\<close>

definition player_handle_event :: "GameEvent \<Rightarrow> Player \<times> GameEvent list \<Rightarrow> Player \<times> GameEvent list" where
  "player_handle_event event sq =
     (case sq of
        (self, queue) \<Rightarrow>
          let self1 =
                (if \<not> talking self then
                   if is_key_down event [K_LEFT, K_a] then move_left True self
                   else if is_key_down event [K_RIGHT, K_d] then move_right True self
                   else if is_key_down event [K_UP, K_SPACE, K_w] then jump self
                   else self
                 else self)
          in if is_key_up event [K_LEFT, K_a] then (move_left False self1, queue)
             else if is_key_up event [K_RIGHT, K_d] then (move_right False self1, queue)
             else if is_key_up event [K_e] then handle_activation (self1, queue)
             else if is_type event NPC_DIALOGUE_END then (self1\<lparr>talking := False\<rparr>, queue)
             else (self1, queue))"

fun player_events_loop :: "GameEvent list \<Rightarrow> Player \<times> GameEvent list \<Rightarrow> Player \<times> GameEvent list" where
  "player_events_loop [] sq = sq"
| "player_events_loop (event # rest) sq = player_events_loop rest (player_handle_event event sq)"

definition player_handle_events :: "Player \<times> GameEvent list \<Rightarrow> Player \<times> GameEvent list" where
  "player_handle_events sq = player_events_loop (events (fst sq)) sq"

section \<open>Concrete entities for the scenarios of Lesson-07 and Lesson-09\<close>

definition npc_8 :: FriendlyNpc where
  "npc_8 = \<lparr>entity_id = 8, entity_type = FRIENDLY_NPC,
             rect = \<lparr>rect_x = 100, rect_y = 200, rect_w = 32, rect_h = 64\<rparr>, events = [],
             is_near_player = False, question_mark_id = None\<rparr>"

definition near_npc :: "int \<Rightarrow> GameEvent" where
  "near_npc l = \<lparr>event_type = PLAYER_NEAR_NPC, listener_id = Some l, event_key = None\<rparr>"

definition dialogue_end :: "int option \<Rightarrow> GameEvent" where
  "dialogue_end l = \<lparr>event_type = NPC_DIALOGUE_END, listener_id = l, event_key = None\<rparr>"

definition empty_world :: World where
  "empty_world = \<lparr>entities = [], next_id = 1\<rparr>"

definition player_3 :: Player where
  "player_3 = \<lparr>entity_id = 3, entity_type = PLAYER,
                rect = \<lparr>rect_x = 0, rect_y = 0, rect_w = 32, rect_h = 32\<rparr>, events = [],
                npc_near_by = None, talking = True, commands = []\<rparr>"

definition world_1_2 :: World where
  "world_1_2 =
     \<lparr>entities =
        [(1, \<lparr>entity_id = 1, entity_type = FRIENDLY_NPC,
               rect = \<lparr>rect_x = 0, rect_y = 0, rect_w = 32, rect_h = 64\<rparr>, events = []\<rparr>),
         (2, \<lparr>entity_id = 2, entity_type = QUESTION_MARK,
               rect = \<lparr>rect_x = 8, rect_y = -80, rect_w = 16, rect_h = 16\<rparr>, events = []\<rparr>)],
      next_id = 3\<rparr>"

section \<open>The overlap detector: properties\<close>

lemma overlaps_sym: "overlaps a b = overlaps b a"
  by (simp add: overlaps_def max.commute min.commute)

lemma card_common_range:
  "0 < card ({a ..< b} \<inter> {c ..< (d::int)}) \<longleftrightarrow> max a c < min b d"
proof -
  have "{a ..< b} \<inter> {c ..< d} = {max a c ..< min b d}"
    by auto
  then show ?thesis
    by simp
qed

lemma overlaps_iff_spec: "overlaps a b \<longleftrightarrow> ranges_overlap_spec a b"
  by (simp add: overlaps_def ranges_overlap_spec_def x_range_def y_range_def card_common_range)

text \<open>
  C7. Two rectangles that touch on an edge (the right edge of one is the left edge of
  the other, or the bottom edge of one is the top edge of the other) do not overlap, and
  \<open>overlaps\<close> is true exactly when the x-ranges and the y-ranges both have a common
  part of non-zero measure.
\<close>

theorem overlaps_touching_edges:
  "(right a = rect_x b \<longrightarrow> \<not> overlaps a b) \<and>
   (right b = rect_x a \<longrightarrow> \<not> overlaps a b) \<and>
   (bottom a = rect_y b \<longrightarrow> \<not> overlaps a b) \<and>
   (bottom b = rect_y a \<longrightarrow> \<not> overlaps a b) \<and>
   (overlaps a b \<longleftrightarrow> ranges_overlap_spec a b)"
proof -
  have "right a = rect_x b \<longrightarrow> \<not> overlaps a b"
    and "right b = rect_x a \<longrightarrow> \<not> overlaps a b"
    and "bottom a = rect_y b \<longrightarrow> \<not> overlaps a b"
    and "bottom b = rect_y a \<longrightarrow> \<not> overlaps a b"
    by (auto simp: overlaps_def)
  then show ?thesis
    using overlaps_iff_spec [of a b] by blast
qed

theorem overlaps_touching_edges_witness:
  "right \<lparr>rect_x = 0, rect_y = 0, rect_w = 10, rect_h = 10\<rparr> =
     rect_x \<lparr>rect_x = 10, rect_y = 0, rect_w = 10, rect_h = 10\<rparr> \<and>
   \<not> overlaps \<lparr>rect_x = 0, rect_y = 0, rect_w = 10, rect_h = 10\<rparr>
              \<lparr>rect_x = 10, rect_y = 0, rect_w = 10, rect_h = 10\<rparr> \<and>
   \<not> ranges_overlap_spec \<lparr>rect_x = 0, rect_y = 0, rect_w = 10, rect_h = 10\<rparr>
                         \<lparr>rect_x = 10, rect_y = 0, rect_w = 10, rect_h = 10\<rparr>"
proof -
  let ?a = "\<lparr>rect_x = 0, rect_y = 0, rect_w = 10, rect_h = 10\<rparr>"
  let ?b = "\<lparr>rect_x = 10, rect_y = 0, rect_w = 10, rect_h = 10\<rparr>"
  have touch: "right ?a = rect_x ?b"
    by (simp add: right_def)
  with overlaps_touching_edges [of ?a ?b] show ?thesis
    by blast
qed

text \<open>
  C8. The overlap test is symmetric, and every rectangle of positive area overlaps
  itself.
\<close>

theorem overlaps_symmetric_reflexive:
  "overlaps a b = overlaps b a \<and> (0 < area a \<longrightarrow> overlaps a a)"
  by (simp add: overlaps_sym) (simp add: overlaps_def area_def right_def bottom_def)

theorem overlaps_symmetric_reflexive_witness:
  "0 < area \<lparr>rect_x = 3, rect_y = 4, rect_w = 10, rect_h = 2\<rparr> \<and>
   overlaps \<lparr>rect_x = 3, rect_y = 4, rect_w = 10, rect_h = 2\<rparr>
            \<lparr>rect_x = 3, rect_y = 4, rect_w = 10, rect_h = 2\<rparr>"
proof -
  have pos: "0 < area \<lparr>rect_x = 3, rect_y = 4, rect_w = 10, rect_h = 2\<rparr>"
    by (simp add: area_def)
  with overlaps_symmetric_reflexive
         [of "\<lparr>rect_x = 3, rect_y = 4, rect_w = 10, rect_h = 2\<rparr>"
             "\<lparr>rect_x = 3, rect_y = 4, rect_w = 10, rect_h = 2\<rparr>"]
  show ?thesis
    by blast
qed

section \<open>The game loop of Lesson-01: one tick\<close>

lemma pickup_items_eq:
  "pickup_items p items gs =
     (map (\<lambda>it. if picks p it then set_hidden it else it) items,
      gs\<lparr>score := score gs + int (length (filter (picks p) items))\<rparr>)"
  by (induction items arbitrary: gs)
     (simp_all add: pickup_item_def picks_def update_score_def)

lemma robot_checks_by_eq:
  "robot_checks_by us rs g =
     g\<lparr>printed := printed g @ replicate (length (filter (hits (player g)) rs)) ''YOU LOST!!'',
       game_state := (us LOST ^^ length (filter (hits (player g)) rs)) (game_state g)\<rparr>"
proof (induction rs arbitrary: g)
  case Nil
  then show ?case by simp
next
  case (Cons r rs)
  show ?case
    by (subst robot_checks_by.simps, subst Cons.IH)
       (simp add: hits_def replicate_append_same funpow_swap1)
qed

lemma goal_check_by_eq:
  "goal_check_by us g =
     (if reaches (player g) (to_mo g)
      then g\<lparr>printed := printed g @ [''YOU WON!!''],
             game_state := us WON (game_state g)\<rparr>
      else g)"
  by (simp add: goal_check_by_def reaches_def)

lemma robot_checks_as_by: "robot_checks rs g = robot_checks_by update_state rs g"
  by (induction rs arbitrary: g) simp_all

lemma tick_as_by: "tick pu ru e g = tick_by update_state pu ru e g"
  by (simp add: tick_def tick_by_def update_phase_def update_phase_by_def
                goal_check_def goal_check_by_def robot_checks_as_by)

lemma update_phase_terminal: "state (game_state g) \<noteq> RUNNING \<Longrightarrow> update_phase pu ru e g = g"
  by (simp add: update_phase_def)

text \<open>
  The whole effect of a tick that starts in state \<open>RUNNING\<close>, whatever
  \<open>update_state\<close> is: it is called with \<open>LOST\<close> once for every robot the player
  overlaps, and then with \<open>WON\<close> if the player overlaps the goal.
\<close>

lemma tick_by_running:
  assumes "state (game_state g) = RUNNING"
  shows "tick_by us pu ru e g =
     g\<lparr>player := pu e (player g),
       list_robot := map (ru e) (list_robot g),
       list_item := map (\<lambda>it. if picks (pu e (player g)) it then set_hidden it else it) (list_item g),
       game_state :=
         (if reaches (pu e (player g)) (to_mo g) then us WON else (\<lambda>gs. gs))
           ((us LOST ^^ length (filter (hits (pu e (player g))) (map (ru e) (list_robot g))))
              ((game_state g)\<lparr>score := score (game_state g)
                 + int (length (filter (picks (pu e (player g))) (list_item g)))\<rparr>)),
       printed := printed g
          @ replicate (length (filter (hits (pu e (player g))) (map (ru e) (list_robot g)))) ''YOU LOST!!''
          @ (if reaches (pu e (player g)) (to_mo g) then [''YOU WON!!''] else []),
       frames := frames g + 1\<rparr>"
  using assms
  by (simp add: tick_by_def render_phase_def update_phase_by_def Let_def pickup_items_eq
                robot_checks_by_eq goal_check_by_eq)

lemmas tick_running = tick_by_running [where us = update_state, folded tick_as_by]

lemma score_update_state [simp]: "score (update_state s gs) = score gs"
  by (simp add: update_state_def)

lemma score_update_state_funpow [simp]: "score ((update_state s ^^ k) gs) = score gs"
  by (induction k) simp_all

lemma tick_terminal:
  "state (game_state g) \<noteq> RUNNING \<Longrightarrow> tick pu ru e g = g\<lparr>frames := frames g + 1\<rparr>"
  by (simp add: tick_def render_phase_def update_phase_terminal)

lemma tick_length_items [simp]: "length (list_item (tick pu ru e g)) = length (list_item g)"
  by (cases "state (game_state g) = RUNNING") (simp_all add: tick_running tick_terminal)

lemma tick_hidden_fixed:
  "k < length (list_item g) \<Longrightarrow> hidden (list_item g ! k) \<Longrightarrow>
   list_item (tick pu ru e g) ! k = list_item g ! k"
  by (cases "state (game_state g) = RUNNING") (simp_all add: tick_running tick_terminal picks_def)

lemma tick_score_mono: "score (game_state g) \<le> score (game_state (tick pu ru e g))"
  by (cases "state (game_state g) = RUNNING") (simp_all add: tick_running tick_terminal)

lemma filter_picks_visible:
  "filter (\<lambda>it. \<not> hidden it \<and> picks p it) items = filter (picks p) items"
  by (rule filter_cong) (auto simp: picks_def)

section \<open>The game loop of Lesson-01: many ticks\<close>

lemma game_loop_terminal:
  "state (game_state g) \<noteq> RUNNING \<Longrightarrow>
   game_loop pu ru g its =
     g\<lparr>running := running g \<and> \<not> (\<exists>i \<in> set its. quit i),
       frames := frames g + (if running g then length (takeWhile (\<lambda>i. \<not> quit i) its) else 0)\<rparr>"
proof (induction its arbitrary: g)
  case Nil
  then show ?case by simp
next
  case (Cons i its)
  show ?case
  proof (cases "running g \<and> \<not> quit i")
    case True
    have st: "state (game_state (g\<lparr>frames := frames g + 1\<rparr>)) \<noteq> RUNNING"
      using Cons.prems by simp
    show ?thesis
      using True Cons.prems Cons.IH [OF st] by (simp add: tick_terminal)
  next
    case False
    then show ?thesis by auto
  qed
qed

lemma game_loop_append:
  "game_loop pu ru g (its1 @ its2) = game_loop pu ru (game_loop pu ru g its1) its2"
proof (induction its1 arbitrary: g)
  case Nil
  then show ?case by simp
next
  case (Cons i its1)
  then show ?case by (cases its2) auto
qed

lemma game_loop_score_mono: "score (game_state g) \<le> score (game_state (game_loop pu ru g its))"
proof (induction its arbitrary: g)
  case Nil
  then show ?case by simp
next
  case (Cons i its)
  have "score (game_state g) \<le> score (game_state (tick pu ru (env i) g))"
    by (rule tick_score_mono)
  also have "\<dots> \<le> score (game_state (game_loop pu ru (tick pu ru (env i) g) its))"
    by (rule Cons.IH)
  finally show ?case by simp
qed

lemma game_loop_hidden_fixed:
  "k < length (list_item g) \<Longrightarrow> hidden (list_item g ! k) \<Longrightarrow>
   list_item (game_loop pu ru g its) ! k = list_item g ! k"
proof (induction its arbitrary: g)
  case Nil
  then show ?case by simp
next
  case (Cons i its)
  let ?g' = "tick pu ru (env i) g"
  have same: "list_item ?g' ! k = list_item g ! k"
    using Cons.prems by (rule tick_hidden_fixed)
  have "list_item (game_loop pu ru ?g' its) ! k = list_item ?g' ! k"
    using Cons.prems same by (intro Cons.IH) simp_all
  with same show ?case by simp
qed

section \<open>The game loop of Lesson-01: the claims\<close>

lemmas scenario_defs =
  new_game_def box_def robot_box_def item_box_def picks_def hits_def reaches_def
  overlap_def overlaps_def bounds_def right_def bottom_def

lemmas loop_defs =
  tick_def update_phase_def render_phase_def goal_check_def pickup_item_def
  set_hidden_def update_score_def update_state_def Let_def

text \<open>
  C1, as the claim states it, fails. The player at (0,0) overlaps a robot at (5,5) and
  the goal at (3,3), all 10 by 10, in state \<open>RUNNING\<close>. Whatever \<open>update_state\<close> is,
  the goal check is not skipped after the hazard check has asked for \<open>LOST\<close>: the tick
  reports the loss and then the win, and calls \<open>update_state\<close> with \<open>LOST\<close> and then
  with \<open>WON\<close>.
\<close>

theorem hazard_and_goal_counterexample:
  "hits (box 0 0) (robot_box 5 5 1 1) \<and> reaches (box 0 0) (box 3 3) \<and>
   state (game_state (new_game (box 0 0) [robot_box 5 5 1 1] [] (box 3 3))) = RUNNING \<and>
   (\<forall>us. printed (tick_by us (\<lambda>e p. p) (\<lambda>e r. r) ()
            (new_game (box 0 0) [robot_box 5 5 1 1] [] (box 3 3))) = [''YOU LOST!!'', ''YOU WON!!''] \<and>
         game_state (tick_by us (\<lambda>e p. p) (\<lambda>e r. r) ()
            (new_game (box 0 0) [robot_box 5 5 1 1] [] (box 3 3))) =
           us WON (us LOST \<lparr>score = 0, state = RUNNING\<rparr>))"
  by (simp add: scenario_defs tick_by_def update_phase_by_def render_phase_def goal_check_by_def
                Let_def)

text \<open>
  C1, as amended. In every tick that starts in state \<open>RUNNING\<close> and in which the
  player, after its update, overlaps at least one robot and the goal: the hazard checks
  are evaluated before the goal check and none of the checks is skipped. Every
  overlapping robot reports the loss and calls \<open>update_state\<close> with \<open>LOST\<close>, then the
  goal check reports the win and calls \<open>update_state\<close> with \<open>WON\<close>, on the game state
  that the pickup loop left. The state at the end of the tick is what
  \<open>GameState.update_state\<close> makes of these calls in this order; the loop decides no
  more than that.
\<close>

theorem hazard_then_goal_same_tick:
  assumes "state (game_state g) = RUNNING"
    and "\<exists>r \<in> set (map (ru e) (list_robot g)). hits (pu e (player g)) r"
    and "reaches (pu e (player g)) (to_mo g)"
  shows "printed (tick_by us pu ru e g) =
           printed g
           @ replicate (length (filter (hits (pu e (player g))) (map (ru e) (list_robot g)))) ''YOU LOST!!''
           @ [''YOU WON!!''] \<and>
         0 < length (filter (hits (pu e (player g))) (map (ru e) (list_robot g))) \<and>
         game_state (tick_by us pu ru e g) =
           us WON
             ((us LOST ^^ length (filter (hits (pu e (player g))) (map (ru e) (list_robot g))))
                (snd (pickup_items (pu e (player g)) (list_item g) (game_state g))))"
  using assms by (auto simp: tick_by_running pickup_items_eq filter_empty_conv)

theorem hazard_then_goal_same_tick_witness:
  "state (game_state (new_game (box 20 20) [robot_box 0 0 2 3, robot_box 21 14 1 1] [] (box 29 29))) = RUNNING \<and>
   hits (box 20 20) (robot_box 21 14 1 1) \<and> reaches (box 20 20) (box 29 29) \<and>
   printed (tick_by update_state_absorbing (\<lambda>e p. p) (\<lambda>e r. r) ()
      (new_game (box 20 20) [robot_box 0 0 2 3, robot_box 21 14 1 1] [] (box 29 29)))
     = [''YOU LOST!!'', ''YOU WON!!''] \<and>
   game_state (tick_by update_state_absorbing (\<lambda>e p. p) (\<lambda>e r. r) ()
      (new_game (box 20 20) [robot_box 0 0 2 3, robot_box 21 14 1 1] [] (box 29 29)))
     = \<lparr>score = 0, state = LOST\<rparr> \<and>
   printed (tick_by (\<lambda>s gs. gs\<lparr>state := s\<rparr>) (\<lambda>e p. p) (\<lambda>e r. r) ()
      (new_game (box 20 20) [robot_box 0 0 2 3, robot_box 21 14 1 1] [] (box 29 29)))
     = [''YOU LOST!!'', ''YOU WON!!''] \<and>
   game_state (tick_by (\<lambda>s gs. gs\<lparr>state := s\<rparr>) (\<lambda>e p. p) (\<lambda>e r. r) ()
      (new_game (box 20 20) [robot_box 0 0 2 3, robot_box 21 14 1 1] [] (box 29 29)))
     = \<lparr>score = 0, state = WON\<rparr>"
proof -
  let ?g = "new_game (box 20 20) [robot_box 0 0 2 3, robot_box 21 14 1 1] [] (box 29 29)"
  have run: "state (game_state ?g) = RUNNING"
    by (simp add: new_game_def)
  have hit: "hits (box 20 20) (robot_box 21 14 1 1)"
    and miss: "\<not> hits (box 20 20) (robot_box 0 0 2 3)"
    and goal: "reaches (box 20 20) (box 29 29)"
    by (simp_all add: scenario_defs)
  have fields: "player ?g = box 20 20" "printed ?g = []" "to_mo ?g = box 29 29"
    "list_robot ?g = [robot_box 0 0 2 3, robot_box 21 14 1 1]" "list_item ?g = []"
    "game_state ?g = \<lparr>score = 0, state = RUNNING\<rparr>"
    by (simp_all add: new_game_def)
  have absorbing:
    "printed (tick_by update_state_absorbing (\<lambda>e p. p) (\<lambda>e r. r) () ?g) = [''YOU LOST!!'', ''YOU WON!!''] \<and>
     game_state (tick_by update_state_absorbing (\<lambda>e p. p) (\<lambda>e r. r) () ?g) = \<lparr>score = 0, state = LOST\<rparr>"
    using hazard_then_goal_same_tick
            [where g = ?g and us = update_state_absorbing
               and pu = "\<lambda>e p. p" and ru = "\<lambda>e r. r" and e = "()"]
          run hit miss goal
    by (simp add: fields update_state_absorbing_def)
  have plain:
    "printed (tick_by (\<lambda>s gs. gs\<lparr>state := s\<rparr>) (\<lambda>e p. p) (\<lambda>e r. r) () ?g) = [''YOU LOST!!'', ''YOU WON!!''] \<and>
     game_state (tick_by (\<lambda>s gs. gs\<lparr>state := s\<rparr>) (\<lambda>e p. p) (\<lambda>e r. r) () ?g) = \<lparr>score = 0, state = WON\<rparr>"
    using hazard_then_goal_same_tick
            [where g = ?g and us = "\<lambda>s gs. gs\<lparr>state := s\<rparr>"
               and pu = "\<lambda>e p. p" and ru = "\<lambda>e r. r" and e = "()"]
          run hit miss goal
    by (simp add: fields)
  from run hit goal absorbing plain show ?thesis
    by blast
qed

text \<open>
  C2. Once the state is \<open>WON\<close> or \<open>LOST\<close>, a tick changes nothing but the number of
  frames shown, and so does any number of later iterations of the loop, whatever the
  player overlaps: the updates and the collision checks are skipped, the render phase
  runs until the quit signal.
\<close>

theorem terminal_state_absorbing:
  assumes "state (game_state g) \<noteq> RUNNING"
  shows "tick pu ru e g = g\<lparr>frames := frames g + 1\<rparr> \<and>
         game_loop pu ru g its =
           g\<lparr>running := running g \<and> \<not> (\<exists>i \<in> set its. quit i),
             frames := frames g + (if running g then length (takeWhile (\<lambda>i. \<not> quit i) its) else 0)\<rparr>"
  using assms by (simp add: tick_terminal game_loop_terminal)

theorem terminal_state_absorbing_witness:
  "state (game_state
     ((new_game (box 0 0) [robot_box 5 5 1 1] [item_box 2 2 DIAMOND_RED] (box 3 3))
        \<lparr>game_state := \<lparr>score = 4, state = LOST\<rparr>\<rparr>)) \<noteq> RUNNING \<and>
   hits (box 0 0) (robot_box 5 5 1 1) \<and> reaches (box 0 0) (box 3 3) \<and>
   game_loop (\<lambda>e p. p) (\<lambda>e r. r)
     ((new_game (box 0 0) [robot_box 5 5 1 1] [item_box 2 2 DIAMOND_RED] (box 3 3))
        \<lparr>game_state := \<lparr>score = 4, state = LOST\<rparr>\<rparr>)
     [\<lparr>quit = False, env = ()\<rparr>, \<lparr>quit = False, env = ()\<rparr>] =
   (new_game (box 0 0) [robot_box 5 5 1 1] [item_box 2 2 DIAMOND_RED] (box 3 3))
        \<lparr>game_state := \<lparr>score = 4, state = LOST\<rparr>, frames := 2\<rparr>"
proof -
  let ?g = "(new_game (box 0 0) [robot_box 5 5 1 1] [item_box 2 2 DIAMOND_RED] (box 3 3))
        \<lparr>game_state := \<lparr>score = 4, state = LOST\<rparr>\<rparr>"
  have lost: "state (game_state ?g) \<noteq> RUNNING"
    by (simp add: new_game_def)
  have over: "hits (box 0 0) (robot_box 5 5 1 1)" "reaches (box 0 0) (box 3 3)"
    by (simp_all add: scenario_defs)
  let ?its = "[\<lparr>quit = False, env = ()\<rparr>, \<lparr>quit = False, env = ()\<rparr>]"
  have "game_loop (\<lambda>e p. p) (\<lambda>e r. r) ?g ?its =
          ?g\<lparr>running := running ?g \<and> \<not> (\<exists>i \<in> set ?its. quit i),
             frames := frames ?g + (if running ?g then length (takeWhile (\<lambda>i. \<not> quit i) ?its) else 0)\<rparr>"
    using terminal_state_absorbing [OF lost] by (rule conjunct2)
  also have "\<dots> = ?g\<lparr>frames := 2\<rparr>"
    by (simp add: new_game_def)
  finally show ?thesis
    using lost over by blast
qed

text \<open>
  C3. The score never decreases, in one tick or along any further iterations of the
  loop, and does not change once the state is \<open>WON\<close> or \<open>LOST\<close>.
\<close>

theorem score_monotone_then_frozen:
  "score (game_state g) \<le> score (game_state (tick pu ru e g)) \<and>
   score (game_state (game_loop pu ru g its1)) \<le> score (game_state (game_loop pu ru g (its1 @ its2))) \<and>
   (state (game_state g) \<noteq> RUNNING \<longrightarrow>
      score (game_state (tick pu ru e g)) = score (game_state g)) \<and>
   (state (game_state (game_loop pu ru g its1)) \<noteq> RUNNING \<longrightarrow>
      score (game_state (game_loop pu ru g (its1 @ its2))) = score (game_state (game_loop pu ru g its1)))"
  by (simp add: tick_score_mono game_loop_append game_loop_score_mono tick_terminal game_loop_terminal)

theorem score_monotone_then_frozen_witness:
  "state (game_state (game_loop (\<lambda>e p. p) (\<lambda>e r. r)
      (new_game (box 0 0) [robot_box 5 5 1 1] [item_box 2 2 DIAMOND_RED] (box 100 100))
      [\<lparr>quit = False, env = ()\<rparr>])) \<noteq> RUNNING \<and>
   score (game_state (game_loop (\<lambda>e p. p) (\<lambda>e r. r)
      (new_game (box 0 0) [robot_box 5 5 1 1] [item_box 2 2 DIAMOND_RED] (box 100 100))
      [\<lparr>quit = False, env = ()\<rparr>])) = 1 \<and>
   score (game_state (game_loop (\<lambda>e p. p) (\<lambda>e r. r)
      (new_game (box 0 0) [robot_box 5 5 1 1] [item_box 2 2 DIAMOND_RED] (box 100 100))
      ([\<lparr>quit = False, env = ()\<rparr>] @ [\<lparr>quit = False, env = ()\<rparr>, \<lparr>quit = False, env = ()\<rparr>]))) = 1"
proof -
  let ?g = "new_game (box 0 0) [robot_box 5 5 1 1] [item_box 2 2 DIAMOND_RED] (box 100 100)"
  let ?run = "game_loop (\<lambda>e p. p) (\<lambda>e r. r) ?g"
  let ?its1 = "[\<lparr>quit = False, env = ()\<rparr>]"
  let ?its2 = "[\<lparr>quit = False, env = ()\<rparr>, \<lparr>quit = False, env = ()\<rparr>]"
  have first: "game_state (?run ?its1) = \<lparr>score = 1, state = LOST\<rparr>"
    by (simp add: scenario_defs loop_defs)
  then have lost: "state (game_state (?run ?its1)) \<noteq> RUNNING"
    and one: "score (game_state (?run ?its1)) = 1"
    by simp_all
  have "state (game_state (?run ?its1)) \<noteq> RUNNING \<longrightarrow>
        score (game_state (?run (?its1 @ ?its2))) = score (game_state (?run ?its1))"
    using score_monotone_then_frozen [where g = ?g and ?its1.0 = ?its1 and ?its2.0 = ?its2] by blast
  with lost one show ?thesis
    by presburger
qed

text \<open>
  C4. In a tick of the running game, every item that is not hidden and that the player
  overlaps (after the player's update) becomes hidden and adds exactly 1 to the score;
  no other item changes. The hidden items take no part in the tick: it ends in the same
  game state with them removed from the list. A hidden item stays as it is in every
  later iteration of the loop.
\<close>

theorem item_pickup:
  assumes "state (game_state g) = RUNNING"
  shows "list_item (tick pu ru e g) =
           map (\<lambda>it. if picks (pu e (player g)) it then it\<lparr>hidden := True\<rparr> else it) (list_item g) \<and>
         score (game_state (tick pu ru e g)) =
           score (game_state g) + int (length (filter (picks (pu e (player g))) (list_item g))) \<and>
         game_state (tick pu ru e (g\<lparr>list_item := filter (\<lambda>it. \<not> hidden it) (list_item g)\<rparr>)) =
           game_state (tick pu ru e g) \<and>
         (\<forall>k < length (list_item g). hidden (list_item g ! k) \<longrightarrow>
            list_item (game_loop pu ru g its) ! k = list_item g ! k)"
  using assms
  by (simp add: tick_running set_hidden_def filter_picks_visible game_loop_hidden_fixed)

theorem item_pickup_witness:
  "state (game_state (new_game (box 0 0) [] [item_box 5 5 DIAMOND_BLUE] (box 100 100))) = RUNNING \<and>
   picks (box 0 0) (item_box 5 5 DIAMOND_BLUE) \<and>
   score (game_state (tick (\<lambda>e p. p) (\<lambda>e r. r) ()
      (new_game (box 0 0) [] [item_box 5 5 DIAMOND_BLUE] (box 100 100)))) = 1 \<and>
   list_item (tick (\<lambda>e p. p) (\<lambda>e r. r) ()
      (new_game (box 0 0) [] [item_box 5 5 DIAMOND_BLUE] (box 100 100))) =
     [(item_box 5 5 DIAMOND_BLUE)\<lparr>hidden := True\<rparr>]"
proof -
  let ?g = "new_game (box 0 0) [] [item_box 5 5 DIAMOND_BLUE] (box 100 100)"
  have run: "state (game_state ?g) = RUNNING"
    by (simp add: new_game_def)
  have pick: "picks (box 0 0) (item_box 5 5 DIAMOND_BLUE)"
    by (simp add: picks_def box_def item_box_def overlap_def overlaps_def bounds_def right_def bottom_def)
  have pl: "player ?g = box 0 0" and it: "list_item ?g = [item_box 5 5 DIAMOND_BLUE]"
    and sc: "score (game_state ?g) = 0"
    by (simp_all add: new_game_def)
  show ?thesis
    using item_pickup [OF run, of "\<lambda>e p. p" "\<lambda>e r. r" "()" "[]"] run pick
    by (simp add: pl it sc)
qed

text \<open>
  C5. When the quit signal is present at the top of an iteration, the loop exits there:
  the game is left as it was (no entity updated, nothing printed, score and state
  unchanged, no frame shown), with \<open>running\<close> false, whatever iterations would
  follow.
\<close>

theorem quit_exits_before_update:
  "quit i \<Longrightarrow> game_loop pu ru g (i # rest) = g\<lparr>running := False\<rparr>"
  by (cases g) simp

theorem quit_exits_before_update_witness:
  "quit \<lparr>quit = True, env = ()\<rparr> \<and>
   state (game_state (new_game (box 0 0) [robot_box 5 5 1 1] [item_box 2 2 DIAMOND_RED] (box 3 3)))
     = RUNNING \<and>
   game_loop (\<lambda>e p. p) (\<lambda>e r. r)
     (new_game (box 0 0) [robot_box 5 5 1 1] [item_box 2 2 DIAMOND_RED] (box 3 3))
     [\<lparr>quit = True, env = ()\<rparr>, \<lparr>quit = False, env = ()\<rparr>] =
   (new_game (box 0 0) [robot_box 5 5 1 1] [item_box 2 2 DIAMOND_RED] (box 3 3))\<lparr>running := False\<rparr>"
proof -
  have q: "quit \<lparr>quit = True, env = ()\<rparr>"
    by simp
  have run: "state (game_state (new_game (box 0 0) [robot_box 5 5 1 1] [item_box 2 2 DIAMOND_RED] (box 3 3)))
      = RUNNING"
    by (simp add: new_game_def)
  from q run quit_exits_before_update [OF q] show ?thesis
    by blast
qed

section \<open>World: removing an entity\<close>

lemma filter_not_live:
  "map_of xs i = None \<Longrightarrow> filter (\<lambda>(j, e). j \<noteq> i) xs = xs"
  by (induction xs) (auto split: if_splits)

text \<open>
  C9. \<open>remove_entity\<close> never raises. On an identifier that is not live (looking it up
  signals "not found") it returns the World unchanged; after a removal the identifier
  is not live, so that removing it again is such a no-op.
\<close>

theorem remove_entity_not_live_noop:
  "(\<exists>w'. remove_entity i w = Inr w') \<and>
   (get_entity i w = Inl LookupFailure \<longrightarrow> remove_entity i w = Inr w) \<and>
   (\<forall>w'. remove_entity i w = Inr w' \<longrightarrow>
      get_entity i w' = Inl LookupFailure \<and> remove_entity i w' = Inr w')"
proof -
  have "get_entity i w = Inl LookupFailure \<longrightarrow> remove_entity i w = Inr w"
    by (auto simp: get_entity_def remove_entity_def filter_not_live split: option.splits)
  moreover have "map_of (filter (\<lambda>(j, e). j \<noteq> i) (entities w)) i = None"
    by (induction "entities w" arbitrary: w) (auto simp: map_of_eq_None_iff)
  ultimately show ?thesis
    by (auto simp: get_entity_def remove_entity_def)
qed


theorem remove_entity_not_live_noop_witness:
  "get_entity 5 world_1_2 = Inl LookupFailure \<and> remove_entity 5 world_1_2 = Inr world_1_2 \<and>
   remove_entity 2 world_1_2 = Inr (world_1_2\<lparr>entities := [hd (entities world_1_2)]\<rparr>) \<and>
   remove_entity 2 (world_1_2\<lparr>entities := [hd (entities world_1_2)]\<rparr>) =
     Inr (world_1_2\<lparr>entities := [hd (entities world_1_2)]\<rparr>)"
proof -
  have stale: "get_entity 5 world_1_2 = Inl LookupFailure"
    by (simp add: get_entity_def world_1_2_def)
  have once: "remove_entity 2 world_1_2 = Inr (world_1_2\<lparr>entities := [hd (entities world_1_2)]\<rparr>)"
    by (simp add: remove_entity_def world_1_2_def)
  from stale once remove_entity_not_live_noop [of 5 world_1_2] remove_entity_not_live_noop [of 2 world_1_2]
  show ?thesis
    by blast
qed

section \<open>FriendlyNpc: the events it acts upon\<close>

lemma npc_events_loop_eq:
  "npc_events_loop evs self =
     self\<lparr>is_near_player := is_near_player self \<or>
        (\<exists>e \<in> set evs. is_type e PLAYER_NEAR_NPC \<and> get_listener_id e = Some (entity_id self))\<rparr>"
  by (induction evs arbitrary: self) auto

lemma npc_handle_events_eq:
  "npc_handle_events self =
     self\<lparr>is_near_player :=
        (\<exists>e \<in> set (events self). is_type e PLAYER_NEAR_NPC \<and> get_listener_id e = Some (entity_id self))\<rparr>"
  by (simp add: npc_handle_events_def npc_events_loop_eq)

lemma get_entity_added:
  "\<exists>e. get_entity (fst (add_entity size_of kind w)) (snd (add_entity size_of kind w)) = Inr e"
  by (simp add: get_entity_def add_entity_def Let_def split: option.splits)

lemma highlight_ok:
  "\<exists>n' w'. highlight size_of self w = Inr (n', w') \<and>
     is_near_player n' = is_near_player self \<and> entity_id n' = entity_id self"
  using get_entity_added [of size_of QUESTION_MARK w]
  by (auto simp: highlight_def Let_def split: prod.splits sum.splits)

lemma unhightlight_ok:
  "\<exists>n' w'. unhightlight self w = Inr (n', w') \<and>
     is_near_player n' = is_near_player self \<and> entity_id n' = entity_id self"
  by (auto simp: unhightlight_def remove_entity_def split: option.splits)

lemma npc_update_ok:
  "\<exists>n' w'. npc_update size_of self evs w = Inr (n', w') \<and>
     is_near_player n' =
       (\<exists>e \<in> set evs. is_type e PLAYER_NEAR_NPC \<and> get_listener_id e = Some (entity_id self)) \<and>
     entity_id n' = entity_id self"
proof -
  let ?s = "npc_handle_events (base_update self evs)"
  have flag: "is_near_player ?s =
      (\<exists>e \<in> set evs. is_type e PLAYER_NEAR_NPC \<and> get_listener_id e = Some (entity_id self))"
    and ident: "entity_id ?s = entity_id self"
    by (simp_all add: npc_handle_events_eq base_update_def)
  show ?thesis
  proof (cases "is_near_player ?s")
    case True
    with highlight_ok [of size_of ?s w] flag ident show ?thesis
      by (simp add: npc_update_def Let_def)
  next
    case False
    with unhightlight_ok [of ?s w] flag ident show ?thesis
      by (simp add: npc_update_def Let_def)
  qed
qed

lemma npc_update_previous_flag:
  "npc_update size_of (self\<lparr>is_near_player := b\<rparr>) evs w = npc_update size_of self evs w"
  by (simp add: npc_update_def base_update_def npc_handle_events_eq)

lemma npc_update_stored_events:
  "npc_update size_of (self\<lparr>events := old\<rparr>) evs w = npc_update size_of self evs w"
  by (simp add: npc_update_def base_update_def)

lemma outcome_highlight:
  "outcome (highlight size_of (self\<lparr>events := evs\<rparr>) w) = outcome (highlight size_of self w)"
  by (simp add: outcome_def highlight_def Let_def split: prod.splits sum.splits)

lemma outcome_unhightlight:
  "outcome (unhightlight (self\<lparr>events := evs\<rparr>) w) = outcome (unhightlight self w)"
  by (simp add: outcome_def unhightlight_def remove_entity_def split: option.splits)

lemma outcome_npc_update:
  "outcome (npc_update size_of self evs w) =
     (if \<exists>e \<in> set evs. is_type e PLAYER_NEAR_NPC \<and> get_listener_id e = Some (entity_id self)
      then outcome (highlight size_of (self\<lparr>is_near_player := True\<rparr>) w)
      else outcome (unhightlight (self\<lparr>is_near_player := False\<rparr>) w))"
proof -
  have "npc_handle_events (base_update self evs) =
      (self\<lparr>is_near_player :=
         (\<exists>e \<in> set evs. is_type e PLAYER_NEAR_NPC \<and> get_listener_id e = Some (entity_id self))\<rparr>)
      \<lparr>events := evs\<rparr>"
    by (simp add: npc_handle_events_eq base_update_def)
  then show ?thesis
    by (cases "\<exists>e \<in> set evs. is_type e PLAYER_NEAR_NPC \<and> get_listener_id e = Some (entity_id self)")
       (auto simp add: npc_update_def Let_def outcome_highlight outcome_unhightlight)
qed

lemma outcome_npc_update_others:
  assumes "entity_id self \<noteq> l"
  shows "outcome (npc_update size_of self (filter (\<lambda>e. \<not> addressed_to l e) evs) w) =
         outcome (npc_update size_of self evs w)"
proof -
  have "(\<exists>e \<in> set (filter (\<lambda>e. \<not> addressed_to l e) evs).
           is_type e PLAYER_NEAR_NPC \<and> get_listener_id e = Some (entity_id self)) =
        (\<exists>e \<in> set evs. is_type e PLAYER_NEAR_NPC \<and> get_listener_id e = Some (entity_id self))"
    using assms by (auto simp: addressed_to_def)
  then show ?thesis by (simp only: outcome_npc_update)
qed

lemma outcome_npc_ticks_others:
  assumes "entity_id n1 \<noteq> l" and "n1\<lparr>events := []\<rparr> = n2\<lparr>events := []\<rparr>"
  shows "outcome (npc_ticks size_of n1 w (map (filter (\<lambda>e. \<not> addressed_to l e)) batches)) =
         outcome (npc_ticks size_of n2 w batches)"
  using assms
proof (induction batches arbitrary: n1 n2 w)
  case Nil
  then show ?case by (simp add: outcome_def)
next
  case (Cons evs later)
  let ?strip = "filter (\<lambda>e. \<not> addressed_to l e)"
  have same_start: "npc_update size_of n1 (?strip evs) w = npc_update size_of n2 (?strip evs) w"
    using npc_update_stored_events [where self = n1 and old = "[]" and evs = "?strip evs"]
          npc_update_stored_events [where self = n2 and old = "[]" and evs = "?strip evs"]
          Cons.prems(2)
    by simp
  have ident: "entity_id n2 \<noteq> l"
    using Cons.prems by (metis entity.select_convs(1) entity.surjective entity.update_convs(4))
  obtain a wa where a: "npc_update size_of n2 (?strip evs) w = Inr (a, wa)" and ida: "entity_id a = entity_id n2"
    using npc_update_ok [of size_of n2 "?strip evs" w] by blast
  obtain b wb where b: "npc_update size_of n2 evs w = Inr (b, wb)"
    using npc_update_ok [of size_of n2 evs w] by blast
  have "outcome (Inr (a, wa)) = outcome (Inr (b, wb))"
    using outcome_npc_update_others [OF ident, of size_of evs w] a b by simp
  then have ab: "a\<lparr>events := []\<rparr> = b\<lparr>events := []\<rparr>" and w: "wa = wb"
    by (simp_all add: outcome_def)
  have "outcome (npc_ticks size_of a wa (map ?strip later)) = outcome (npc_ticks size_of b wa later)"
    using ida ident ab by (intro Cons.IH) simp_all
  then show ?case
    using same_start a b w by simp
qed

text \<open>
  C10. Every call of \<open>FriendlyNpc.update\<close> returns, and the flag \<open>is_near_player\<close>
  is then true iff the events of the call contain a \<open>PLAYER_NEAR_NPC\<close> event whose
  listener identifier is the identifier of this NPC. The flag does not persist: the
  result of the call is the same whatever the flag was before.
\<close>

theorem npc_update_flag:
  "\<exists>n' w'. npc_update size_of self evs w = Inr (n', w') \<and>
     (is_near_player n' \<longleftrightarrow>
        (\<exists>e \<in> set evs. is_type e PLAYER_NEAR_NPC \<and> get_listener_id e = Some (entity_id self))) \<and>
     npc_update size_of (self\<lparr>is_near_player := b\<rparr>) evs w = npc_update size_of self evs w"
  using npc_update_ok [of size_of self evs w] npc_update_previous_flag [of size_of b self evs w]
  by auto

text \<open>
  C6, as the claim states it for every entity, fails: the event handling of \<open>Player\<close>
  does not consult the listener identifier. A talking player with identifier 3 that is
  handed an \<open>NPC_DIALOGUE_END\<close> event addressed to 7 stops talking; without the event
  it keeps talking.
\<close>

theorem player_acts_on_event_for_other:
  "entity_id player_3 = 3 \<and> get_listener_id (dialogue_end (Some 7)) = Some 7 \<and>
   talking player_3 \<and>
   talking (fst (player_handle_events (base_update player_3 [], []))) \<and>
   \<not> talking (fst (player_handle_events (base_update player_3 [dialogue_end (Some 7)], [])))"
  by (simp add: player_3_def dialogue_end_def get_listener_id_def base_update_def
                player_handle_events_def player_handle_event_def is_key_up_def is_type_def Let_def)

text \<open>
  C6, as amended. A \<open>FriendlyNpc\<close> ignores every event that carries the listener
  identifier of another entity: over any number of ticks, the NPC and the World end up
  the same with these events delivered as without them, and a tick in which all events
  are addressed to another entity leaves the flag \<open>is_near_player\<close> false.
\<close>

theorem npc_ignores_events_for_others:
  assumes "entity_id self \<noteq> l"
  shows "outcome (npc_ticks size_of self w (map (filter (\<lambda>e. \<not> addressed_to l e)) batches)) =
           outcome (npc_ticks size_of self w batches) \<and>
         ((\<forall>e \<in> set evs. addressed_to l e) \<longrightarrow>
            (\<exists>n' w'. npc_update size_of self evs w = Inr (n', w') \<and> \<not> is_near_player n'))"
proof -
  have "(\<forall>e \<in> set evs. addressed_to l e) \<longrightarrow>
          (\<exists>n' w'. npc_update size_of self evs w = Inr (n', w') \<and> \<not> is_near_player n')"
    using npc_update_ok [of size_of self evs w] assms
    by (auto simp: addressed_to_def)
  then show ?thesis
    using outcome_npc_ticks_others [OF assms refl] by blast
qed

theorem npc_ignores_events_for_others_witness:
  "entity_id npc_8 \<noteq> 7 \<and> addressed_to 7 (near_npc 7) \<and>
   outcome (npc_ticks (\<lambda>k. (16, 16)) npc_8 empty_world [[near_npc 7], [dialogue_end (Some 7), near_npc 7]]) =
   outcome (npc_ticks (\<lambda>k. (16, 16)) npc_8 empty_world [[], []]) \<and>
   outcome (npc_ticks (\<lambda>k. (16, 16)) npc_8 empty_world [[near_npc 7], [dialogue_end (Some 7), near_npc 7]]) =
   Inr (npc_8, empty_world)"
proof -
  have other: "entity_id npc_8 \<noteq> 7"
    by (simp add: npc_8_def)
  have addr: "addressed_to 7 (near_npc 7)" "addressed_to 7 (dialogue_end (Some 7))"
    by (simp_all add: addressed_to_def get_listener_id_def near_npc_def dialogue_end_def)
  have quiet: "outcome (npc_ticks (\<lambda>k. (16, 16)) npc_8 empty_world [[], []]) = Inr (npc_8, empty_world)"
    by (simp add: outcome_def npc_update_def base_update_def npc_handle_events_def
                  unhightlight_def npc_8_def Let_def)
  have "outcome (npc_ticks (\<lambda>k. (16, 16)) npc_8 empty_world
           (map (filter (\<lambda>e. \<not> addressed_to 7 e)) [[near_npc 7], [dialogue_end (Some 7), near_npc 7]])) =
        outcome (npc_ticks (\<lambda>k. (16, 16)) npc_8 empty_world [[near_npc 7], [dialogue_end (Some 7), near_npc 7]])"
    using npc_ignores_events_for_others [OF other] by (rule conjunct1)
  then have "outcome (npc_ticks (\<lambda>k. (16, 16)) npc_8 empty_world [[], []]) =
        outcome (npc_ticks (\<lambda>k. (16, 16)) npc_8 empty_world [[near_npc 7], [dialogue_end (Some 7), near_npc 7]])"
    using addr by (simp del: npc_ticks.simps)
  with other addr(1) quiet show ?thesis
    by simp
qed


end
